theory Spec2Isabelle
  imports Complex_Main
begin

section \<open>The cpugov daemon (daemon/cpugov\_daemon.py)\<close>

text \<open>
  The daemon is a D-Bus object with four methods and one signal. Everything it does goes
  through five outside parties: the cpu directories of sysfs, \<^verbatim>\<open>/proc/cpuinfo\<close>, the
  configuration file \<^verbatim>\<open>/var/lib/cpugov/config.json\<close>, the polkit authority and the bus
  on which the signal is sent. The model makes each of them a field of a record
  \<open>world\<close>; a method takes the world and returns its result (a value or the exception it
  raises), the world it leaves behind and the list of the outside calls it made, in order.
  A method that changes nothing returns no world, and one that raises nothing returns a
  plain value. The lines the daemon prints on stderr are left out.
\<close>

subsection \<open>Python strings\<close>

text \<open>
  A string is a list of characters. \<open>isspace\<close> is Python's \<^verbatim>\<open>str.isspace\<close> on the
  code points below 256, which are the characters of the type \<open>char\<close>: the controls 9..13
  and 28..31, the space, NEL (133) and the no-break space (160). \<^verbatim>\<open>str.strip()\<close> and
  \<^verbatim>\<open>str.split()\<close> without argument both use this predicate.
\<close>

definition isspace :: "char \<Rightarrow> bool" where
  "isspace c =
     (let n = (of_char c :: nat)
      in (9 \<le> n \<and> n \<le> 13) \<or> (28 \<le> n \<and> n \<le> 32) \<or> n = 133 \<or> n = 160)"

definition py_strip :: "string \<Rightarrow> string" where
  "py_strip s = rev (dropWhile isspace (rev (dropWhile isspace s)))"

text \<open>
  \<^verbatim>\<open>s.split()\<close>: the maximal runs of non-space characters of \<open>s\<close>, in order.
  \<open>split_from cur s\<close> scans \<open>s\<close> with the word read so far in \<open>cur\<close>.
\<close>

fun split_from :: "string \<Rightarrow> string \<Rightarrow> string list" where
  "split_from cur [] = (if cur = [] then [] else [cur])"
| "split_from cur (c # cs) =
     (if isspace c then (if cur = [] then split_from [] cs else cur # split_from [] cs)
      else split_from (cur @ [c]) cs)"

definition py_split :: "string \<Rightarrow> string list" where
  "py_split s = split_from [] s"

text \<open>\<^verbatim>\<open>sep.join(xs)\<close>.\<close>

fun py_join :: "string \<Rightarrow> string list \<Rightarrow> string" where
  "py_join sep [] = []"
| "py_join sep [x] = x"
| "py_join sep (x # y # ys) = x @ sep @ py_join sep (y # ys)"

text \<open>\<^verbatim>\<open>line.startswith(p)\<close>.\<close>

definition startswith :: "string \<Rightarrow> string \<Rightarrow> bool" where
  "startswith line p = (take (length p) line = p)"

text \<open>
  \<^verbatim>\<open>line.split(":", 1)[1]\<close>: what follows the first colon. Without a colon the split has
  one element and the index raises IndexError, here \<open>None\<close>.
\<close>

definition after_colon :: "string \<Rightarrow> string option" where
  "after_colon line =
     (case dropWhile (\<lambda>c. c \<noteq> CHR '':'') line of [] \<Rightarrow> None | _ # rest \<Rightarrow> Some rest)"

text \<open>\<^verbatim>\<open>str(n)\<close> for a natural number, for the directory name \<^verbatim>\<open>cpuN\<close>.\<close>

definition digit :: "nat \<Rightarrow> char" where
  "digit n = char_of (48 + n)"

function str_nat :: "nat \<Rightarrow> string" where
  "str_nat n = (if n < 10 then [digit n] else str_nat (n div 10) @ [digit (n mod 10)])"
  by pat_completeness auto
termination
  by (relation "measure (\<lambda>n. n)") auto

declare str_nat.simps [simp del]

subsection \<open>Exceptions\<close>

text \<open>
  The exceptions that leave a method. A \<^verbatim>\<open>DBusException\<close> carries its D-Bus error name
  and its message. \<open>OSError\<close> stands for IOError and OSError (one class in Python 3).
\<close>

datatype error =
    DBusException string string
  | OSError
  | IndexError
  | AttributeError
  | OverflowError

definition INVALID_GOVERNOR :: string where
  "INVALID_GOVERNOR = ''io.github.serverket.cpugov.Error.InvalidGovernor''"

definition NOT_AUTHORIZED :: string where
  "NOT_AUTHORIZED = ''org.freedesktop.PolicyKit1.Error.NotAuthorized''"

definition POLKIT_ACTION_SET :: string where
  "POLKIT_ACTION_SET = ''io.github.serverket.cpugov.set-governor''"

subsection \<open>The outside world\<close>

text \<open>
  The files under \<^verbatim>\<open>/sys/devices/system/cpu\<close>. The directory \<^verbatim>\<open>cpuN\<close> is the number
  \<open>N\<close>; \<open>CpuFile N a\<close> is \<^verbatim>\<open>os.path.join(cpu_dir, a)\<close> and \<open>OnlineFile\<close> is
  \<^verbatim>\<open>os.path.join(SYSFS_CPU_BASE, "online")\<close>.
\<close>

datatype attr =
    GOVERNOR_PATH
  | AVAIL_GOVERNORS_PATH
  | CUR_FREQ_PATH
  | MIN_FREQ_PATH
  | MAX_FREQ_PATH

datatype path = CpuFile nat attr | OnlineFile

text \<open>
  A file that exists has a content, and the environment decides whether reading it and
  whether writing it raises an I/O error.
\<close>

record sfile =
  content :: string
  rd_fails :: bool
  wr_fails :: bool

text \<open>
  The values \<^verbatim>\<open>json.load\<close> returns; \<open>JNull\<close> is Python's \<^verbatim>\<open>None\<close>, \<open>JObj\<close> holds
  the items of a dict.
\<close>

datatype json =
    JNull
  | JBool bool
  | JNum rat
  | JStr string
  | JArr "json list"
  | JObj "(string \<times> json) list"

text \<open>
  The configuration file, by what \<^verbatim>\<open>open\<close> and \<^verbatim>\<open>json.load\<close> make of it: it
  does not exist, it cannot be read, it does not hold JSON (JSONDecodeError), or it
  holds the JSON text of a value.
\<close>

datatype config_file = Missing | Unreadable | Malformed | Parsed json

text \<open>
  \<^verbatim>\<open>/proc/cpuinfo\<close> as the kernel writes it: a line is empty, between two processors, or
  a field, which is a key (with the tabs that pad it), a colon and the rest of the line.
  \<open>line_of\<close> is the line as the iteration over the file yields it.
\<close>

datatype cpuinfo_line = Blank | Field string string

fun line_of :: "cpuinfo_line \<Rightarrow> string" where
  "line_of Blank = ''\<newline>''"
| "line_of (Field key rest) = key @ '':'' @ rest @ ''\<newline>''"

record world =
  cpus :: "nat list"
  sysfs :: "path \<rightharpoonup> sfile"
  cpuinfo :: "cpuinfo_line list option"
  config :: config_file
  config_wr_fails :: bool
  polkit :: "string \<Rightarrow> string \<Rightarrow> error + bool"

text \<open>
  \<open>cpus\<close> is what \<^verbatim>\<open>glob.glob(".../cpu[0-9]*")\<close> returns, in glob's order; \<open>cpuinfo\<close>
  is the list of the lines of \<^verbatim>\<open>/proc/cpuinfo\<close>, \<open>None\<close> when it cannot be opened;
  \<open>config_wr_fails\<close> says whether creating the directory of the configuration file or
  writing the file raises; \<open>polkit sender action_id\<close> is the outcome of the
  \<^verbatim>\<open>CheckAuthorization\<close> call: the exception of the bus when the authority cannot be
  reached, else the first component of its reply.
\<close>

text \<open>The outside calls a method makes.\<close>

datatype event =
    LoadConfig
  | EnumCores
  | ReadCpuinfo
  | SysRead path
  | SysWrite path string
  | CheckAuthorization string string
  | GovernorChanged string
  | SaveConfig string

fun is_write :: "event \<Rightarrow> bool" where
  "is_write (SysWrite p v) = True"
| "is_write _ = False"

fun is_auth :: "event \<Rightarrow> bool" where
  "is_auth (CheckAuthorization s a) = True"
| "is_auth _ = False"

subsection \<open>Helper methods\<close>

text \<open>
  \<^verbatim>\<open>_get_cpu_dirs\<close>: the cpu directories sorted by their number, those kept in which
  the governor file exists.
\<close>

definition get_cpu_dirs :: "world \<Rightarrow> nat list" where
  "get_cpu_dirs w =
     filter (\<lambda>d. sysfs w (CpuFile d GOVERNOR_PATH) \<noteq> None) (sort (cpus w))"

text \<open>
  \<^verbatim>\<open>open(path, "r")\<close> and \<^verbatim>\<open>f.read()\<close>; \<open>None\<close> is the IOError or OSError
  they raise.
\<close>

definition open_read :: "world \<Rightarrow> path \<Rightarrow> string option" where
  "open_read w p =
     (case sysfs w p of
        None \<Rightarrow> None
      | Some f \<Rightarrow> if rd_fails f then None else Some (content f))"

text \<open>\<^verbatim>\<open>_read_sysfs\<close>.\<close>

definition read_sysfs :: "world \<Rightarrow> path \<Rightarrow> string" where
  "read_sysfs w p = (case open_read w p of Some s \<Rightarrow> py_strip s | None \<Rightarrow> [])"

text \<open>
  \<^verbatim>\<open>_write_sysfs\<close>; \<open>None\<close> is the IOError or OSError that \<^verbatim>\<open>open(path, "w")\<close> or
  \<^verbatim>\<open>f.write\<close> raises, and then the file is as it was. sysfs creates no file.
\<close>

definition write_sysfs :: "path \<Rightarrow> string \<Rightarrow> world \<Rightarrow> world option" where
  "write_sysfs p v w =
     (case sysfs w p of
        None \<Rightarrow> None
      | Some f \<Rightarrow>
          if wr_fails f then None
          else Some (w\<lparr>sysfs := (sysfs w)(p \<mapsto> f\<lparr>content := v\<rparr>)\<rparr>))"

text \<open>\<^verbatim>\<open>_check_polkit_auth\<close>.\<close>

definition check_polkit_auth :: "world \<Rightarrow> string \<Rightarrow> string \<Rightarrow> error + unit" where
  "check_polkit_auth w sender action_id =
     (case polkit w sender action_id of
        Inl e \<Rightarrow> Inl e
      | Inr is_authorized \<Rightarrow>
          if \<not> is_authorized
          then Inl (DBusException NOT_AUTHORIZED (''Not authorized for action: '' @ action_id))
          else Inr ())"

text \<open>
  \<^verbatim>\<open>_get_cpu_model\<close>. \<open>find_model\<close> is the loop over the lines: the first line that
  starts with \<^verbatim>\<open>model name\<close> decides.
\<close>

fun find_model :: "string list \<Rightarrow> error + string option" where
  "find_model [] = Inr None"
| "find_model (line # rest) =
     (if startswith line ''model name''
      then (case after_colon line of
              None \<Rightarrow> Inl IndexError
            | Some v \<Rightarrow> Inr (Some (py_strip v)))
      else find_model rest)"

definition get_cpu_model :: "world \<Rightarrow> error + string" where
  "get_cpu_model w =
     (case cpuinfo w of
        None \<Rightarrow> Inr ''Unknown''
      | Some lines \<Rightarrow>
          (case find_model (map line_of lines) of
             Inl e \<Rightarrow> Inl e
           | Inr None \<Rightarrow> Inr ''Unknown''
           | Inr (Some m) \<Rightarrow> Inr m))"

text \<open>
  \<^verbatim>\<open>_save_governor\<close>: the file becomes the JSON text of \<^verbatim>\<open>{"governor": governor}\<close>;
  an IOError or OSError is caught and printed.
\<close>

definition save_governor :: "string \<Rightarrow> world \<Rightarrow> world" where
  "save_governor governor w =
     (if config_wr_fails w then w
      else w\<lparr>config := Parsed (JObj [(''governor'', JStr governor)])\<rparr>)"

text \<open>
  \<^verbatim>\<open>_load_saved_governor\<close>. \<^verbatim>\<open>config.get\<close> exists on a dict only: on any other JSON
  value it raises AttributeError, which the \<^verbatim>\<open>except\<close> clause does not name.
\<close>

definition load_saved_governor :: "world \<Rightarrow> error + json" where
  "load_saved_governor w =
     (case config w of
        Missing \<Rightarrow> Inr JNull
      | Unreadable \<Rightarrow> Inr JNull
      | Malformed \<Rightarrow> Inr JNull
      | Parsed (JObj items) \<Rightarrow>
          Inr (case map_of items ''governor'' of None \<Rightarrow> JNull | Some v \<Rightarrow> v)
      | Parsed _ \<Rightarrow> Inl AttributeError)"

text \<open>Python's truth value of a JSON value, for \<^verbatim>\<open>if not saved\<close>.\<close>

fun truthy :: "json \<Rightarrow> bool" where
  "truthy JNull = False"
| "truthy (JBool b) = b"
| "truthy (JNum n) = (n \<noteq> 0)"
| "truthy (JStr s) = (s \<noteq> [])"
| "truthy (JArr xs) = (xs \<noteq> [])"
| "truthy (JObj items) = (items \<noteq> [])"

text \<open>\<^verbatim>\<open>saved in available\<close>: only a string equals an element of a list of strings.\<close>

fun py_in :: "json \<Rightarrow> string list \<Rightarrow> bool" where
  "py_in (JStr s) xs = (s \<in> set xs)"
| "py_in _ xs = False"

text \<open>
  The loop of \<^verbatim>\<open>_restore_governor\<close>: a write that raises is printed and the loop goes
  on with the next directory.
\<close>

fun restore_writes :: "nat list \<Rightarrow> string \<Rightarrow> world \<Rightarrow> world \<times> event list" where
  "restore_writes [] saved w = (w, [])"
| "restore_writes (cpu_dir # rest) saved w =
     (let p = CpuFile cpu_dir GOVERNOR_PATH;
          w1 = (case write_sysfs p saved w of None \<Rightarrow> w | Some w' \<Rightarrow> w');
          (w2, tr) = restore_writes rest saved w1
      in (w2, SysWrite p saved # tr))"

text \<open>
  \<^verbatim>\<open>_restore_governor\<close>, run by the constructor. A value that passed the membership
  test is a string, so the last case of \<open>saved\<close> is never taken.
\<close>

definition restore_governor :: "world \<Rightarrow> (error + unit) \<times> world \<times> event list" where
  "restore_governor w =
     (case load_saved_governor w of
        Inl e \<Rightarrow> (Inl e, w, [LoadConfig])
      | Inr saved \<Rightarrow>
          if \<not> truthy saved then (Inr (), w, [LoadConfig])
          else
            (case get_cpu_dirs w of
               [] \<Rightarrow> (Inr (), w, [LoadConfig, EnumCores])
             | first # _ \<Rightarrow>
                 (let p = CpuFile first AVAIL_GOVERNORS_PATH;
                      available = py_split (read_sysfs w p)
                  in if \<not> py_in saved available
                     then (Inr (), w, [LoadConfig, EnumCores, SysRead p])
                     else
                       (case saved of
                          JStr s \<Rightarrow>
                            (let (w', tr) = restore_writes (get_cpu_dirs w) s w
                             in (Inr (), w', [LoadConfig, EnumCores, SysRead p] @ tr))
                        | _ \<Rightarrow> (Inr (), w, [LoadConfig, EnumCores, SysRead p])))))"

subsection \<open>D-Bus methods\<close>

definition GetGovernor :: "world \<Rightarrow> string \<times> event list" where
  "GetGovernor w =
     (case get_cpu_dirs w of
        [] \<Rightarrow> (''unknown'', [EnumCores])
      | first # _ \<Rightarrow>
          (let p = CpuFile first GOVERNOR_PATH
           in (read_sysfs w p, [EnumCores, SysRead p])))"

definition GetAvailableGovernors :: "world \<Rightarrow> string list \<times> event list" where
  "GetAvailableGovernors w =
     (case get_cpu_dirs w of
        [] \<Rightarrow> ([], [EnumCores])
      | first # _ \<Rightarrow>
          (let p = CpuFile first AVAIL_GOVERNORS_PATH
           in (py_split (read_sysfs w p), [EnumCores, SysRead p])))"

text \<open>
  The loop of \<^verbatim>\<open>SetGovernor\<close>: nothing catches what \<^verbatim>\<open>_write_sysfs\<close> raises, so the
  first write that fails ends the loop and the method.
\<close>

fun apply_writes :: "nat list \<Rightarrow> string \<Rightarrow> world \<Rightarrow> (error + unit) \<times> world \<times> event list" where
  "apply_writes [] governor w = (Inr (), w, [])"
| "apply_writes (cpu_dir # rest) governor w =
     (let p = CpuFile cpu_dir GOVERNOR_PATH
      in case write_sysfs p governor w of
           None \<Rightarrow> (Inl OSError, w, [SysWrite p governor])
         | Some w1 \<Rightarrow>
             (let (r, w2, tr) = apply_writes rest governor w1
              in (r, w2, SysWrite p governor # tr)))"

definition SetGovernor :: "string \<Rightarrow> string \<Rightarrow> world \<Rightarrow> (error + bool) \<times> world \<times> event list" where
  "SetGovernor governor sender w =
     (let (available, tr1) = GetAvailableGovernors w
      in if governor \<notin> set available
         then (Inl (DBusException INVALID_GOVERNOR
                      (''Invalid governor: '' @ governor @ ''. Available: ''
                         @ py_join '', '' available)),
               w, tr1)
         else
           (case check_polkit_auth w sender POLKIT_ACTION_SET of
              Inl e \<Rightarrow> (Inl e, w, tr1 @ [CheckAuthorization sender POLKIT_ACTION_SET])
            | Inr _ \<Rightarrow>
                (case apply_writes (get_cpu_dirs w) governor w of
                   (Inl e, w1, tr2) \<Rightarrow>
                     (Inl e, w1,
                      tr1 @ [CheckAuthorization sender POLKIT_ACTION_SET, EnumCores] @ tr2)
                 | (Inr _, w1, tr2) \<Rightarrow>
                     (Inr True, save_governor governor w1,
                      tr1 @ [CheckAuthorization sender POLKIT_ACTION_SET, EnumCores] @ tr2
                        @ [GovernorChanged governor, SaveConfig governor]))))"

text \<open>
  \<^verbatim>\<open>GetCpuInfo\<close>. The fields of \<open>core_info\<close> are the keys \<^verbatim>\<open>name\<close>, \<^verbatim>\<open>governor\<close>,
  \<^verbatim>\<open>cur_freq_khz\<close>, \<^verbatim>\<open>min_freq_khz\<close> and \<^verbatim>\<open>max_freq_khz\<close> of a per-core dictionary,
  under the names of the variables that fill them. \<^verbatim>\<open>dbus.Int32\<close> raises OverflowError
  on a count that does not fit 32 bits.
\<close>

record core_info =
  core_name :: string
  core_gov :: string
  cur_freq :: string
  min_freq :: string
  max_freq :: string

record cpu_info =
  model :: string
  core_count :: int
  online :: string
  per_core :: "core_info list"

definition core_entry :: "world \<Rightarrow> nat \<Rightarrow> core_info" where
  "core_entry w cpu_dir =
     \<lparr>core_name = ''cpu'' @ str_nat cpu_dir,
      core_gov = read_sysfs w (CpuFile cpu_dir GOVERNOR_PATH),
      cur_freq = read_sysfs w (CpuFile cpu_dir CUR_FREQ_PATH),
      min_freq = read_sysfs w (CpuFile cpu_dir MIN_FREQ_PATH),
      max_freq = read_sysfs w (CpuFile cpu_dir MAX_FREQ_PATH)\<rparr>"

definition core_reads :: "nat \<Rightarrow> event list" where
  "core_reads cpu_dir =
     [SysRead (CpuFile cpu_dir GOVERNOR_PATH), SysRead (CpuFile cpu_dir CUR_FREQ_PATH),
      SysRead (CpuFile cpu_dir MIN_FREQ_PATH), SysRead (CpuFile cpu_dir MAX_FREQ_PATH)]"

definition GetCpuInfo :: "world \<Rightarrow> (error + cpu_info) \<times> event list" where
  "GetCpuInfo w =
     (let cpu_dirs = get_cpu_dirs w
      in case get_cpu_model w of
           Inl e \<Rightarrow> (Inl e, [EnumCores, ReadCpuinfo])
         | Inr m \<Rightarrow>
             (let tr = [EnumCores, ReadCpuinfo] @ concat (map core_reads cpu_dirs)
                         @ [SysRead OnlineFile]
              in if 2147483647 < int (length cpu_dirs) then (Inl OverflowError, tr)
                 else (Inr \<lparr>model = m,
                            core_count = int (length cpu_dirs),
                            online = read_sysfs w OnlineFile,
                            per_core = map (core_entry w) cpu_dirs\<rparr>, tr)))"

subsection \<open>Three machines\<close>

text \<open>
  \<open>host\<close> has two cores with frequency scaling, both on \<^verbatim>\<open>powersave\<close>, a saved choice
  \<^verbatim>\<open>powersave\<close> and an authority that grants every request. \<open>bare\<close> is the same machine
  without frequency scaling: the cpu directories exist, the \<^verbatim>\<open>cpufreq\<close> files do not.
\<close>

definition cpu_files :: "path \<rightharpoonup> sfile" where
  "cpu_files =
     [CpuFile 0 GOVERNOR_PATH \<mapsto>
        \<lparr>content = ''powersave\<newline>'', rd_fails = False, wr_fails = False\<rparr>,
      CpuFile 0 AVAIL_GOVERNORS_PATH \<mapsto>
        \<lparr>content = ''performance powersave schedutil\<newline>'', rd_fails = False,
         wr_fails = True\<rparr>,
      CpuFile 1 GOVERNOR_PATH \<mapsto>
        \<lparr>content = ''powersave\<newline>'', rd_fails = False, wr_fails = False\<rparr>,
      CpuFile 1 AVAIL_GOVERNORS_PATH \<mapsto>
        \<lparr>content = ''performance powersave schedutil\<newline>'', rd_fails = False,
         wr_fails = True\<rparr>,
      OnlineFile \<mapsto> \<lparr>content = ''0-1\<newline>'', rd_fails = False, wr_fails = True\<rparr>]"

definition host :: world where
  "host =
     \<lparr>cpus = [1, 0],
      sysfs = cpu_files,
      cpuinfo = Some [Field ''processor '' '' 0'', Field ''model name '' '' Example CPU'', Blank],
      config = Parsed (JObj [(''governor'', JStr ''powersave'')]),
      config_wr_fails = False,
      polkit = (\<lambda>sender action_id. Inr True)\<rparr>"

definition bare :: world where
  "bare =
     host\<lparr>sysfs := [OnlineFile \<mapsto>
                       \<lparr>content = ''0-1\<newline>'', rd_fails = False, wr_fails = True\<rparr>],
          config := Missing\<rparr>"

text \<open>
  \<open>stuck\<close> is \<open>host\<close> with a saved choice \<^verbatim>\<open>performance\<close> and a first core whose governor
  file rejects every write.
\<close>

definition stuck :: world where
  "stuck =
     host\<lparr>sysfs := cpu_files(CpuFile 0 GOVERNOR_PATH \<mapsto>
                       \<lparr>content = ''powersave\<newline>'', rd_fails = False, wr_fails = True\<rparr>),
          config := Parsed (JObj [(''governor'', JStr ''performance'')])\<rparr>"




section \<open>Properties\<close>

subsection \<open>Words, strips and joins\<close>

text \<open>
  A word that \<^verbatim>\<open>split()\<close> returns is not empty and holds no space, so \<^verbatim>\<open>strip()\<close>
  leaves it as it is; a joined list holds each of its elements.
\<close>

lemma split_from_words:
  "\<forall>c \<in> set cur. \<not> isspace c \<Longrightarrow> x \<in> set (split_from cur s) \<Longrightarrow>
     x \<noteq> [] \<and> (\<forall>c \<in> set x. \<not> isspace c)"
proof (induction s arbitrary: cur)
  case Nil
  then show ?case by (auto split: if_splits)
next
  case (Cons c cs)
  show ?case
  proof (cases "isspace c")
    case True
    with Cons.prems have "x = cur \<and> cur \<noteq> [] \<or> x \<in> set (split_from [] cs)"
      by (auto split: if_splits)
    then show ?thesis
    proof
      assume "x = cur \<and> cur \<noteq> []"
      with Cons.prems(1) show ?thesis by simp
    next
      assume "x \<in> set (split_from [] cs)"
      then show ?thesis using Cons.IH [of "[]"] by simp
    qed
  next
    case False
    with Cons.prems have "x \<in> set (split_from (cur @ [c]) cs)" by simp
    moreover from False Cons.prems(1) have "\<forall>c' \<in> set (cur @ [c]). \<not> isspace c'" by simp
    ultimately show ?thesis using Cons.IH [of "cur @ [c]"] by blast
  qed
qed

lemma py_split_words:
  "x \<in> set (py_split s) \<Longrightarrow> x \<noteq> [] \<and> (\<forall>c \<in> set x. \<not> isspace c)"
  unfolding py_split_def using split_from_words [of "[]" x s] by simp

lemma dropWhile_none: "\<forall>c \<in> set s. \<not> P c \<Longrightarrow> dropWhile P s = s"
  by (cases s) simp_all

lemma py_strip_word: "\<forall>c \<in> set s. \<not> isspace c \<Longrightarrow> py_strip s = s"
  by (simp add: py_strip_def dropWhile_none)

lemma available_fixed:
  "g \<in> set (fst (GetAvailableGovernors w)) \<Longrightarrow> py_strip g = g"
  by (auto simp: GetAvailableGovernors_def Let_def split: list.splits
           dest!: py_split_words intro: py_strip_word)

lemma available_no_cores: "get_cpu_dirs w = [] \<Longrightarrow> GetAvailableGovernors w = ([], [EnumCores])"
  by (simp add: GetAvailableGovernors_def)

lemma available_events:
  "e \<in> set (snd (GetAvailableGovernors w)) \<Longrightarrow> \<not> is_write e \<and> \<not> is_auth e"
  by (auto simp: GetAvailableGovernors_def Let_def split: list.splits)

lemma py_join_holds:
  "x \<in> set xs \<Longrightarrow> \<exists>a b. py_join sep xs = a @ x @ b"
proof (induction sep xs rule: py_join.induct)
  case (1 sep)
  then show ?case by simp
next
  case (2 sep y)
  then have "py_join sep [y] = [] @ x @ []" by simp
  then show ?case by blast
next
  case (3 sep y z zs)
  show ?case
  proof (cases "x = y")
    case True
    then have "py_join sep (y # z # zs) = [] @ x @ (sep @ py_join sep (z # zs))" by simp
    then show ?thesis by blast
  next
    case False
    with 3 obtain a b where "py_join sep (z # zs) = a @ x @ b" by auto
    then have "py_join sep (y # z # zs) = (y @ sep @ a) @ x @ b" by simp
    then show ?thesis by blast
  qed
qed

subsection \<open>GetGovernor\<close>

text \<open>
  C9: when no core with a governor file is enumerated, GetGovernor returns the string
  \<^verbatim>\<open>unknown\<close>, not the empty string, and reads no file; the method has no exception to
  raise.
\<close>

theorem GetGovernor_no_cores:
  "get_cpu_dirs w = [] \<Longrightarrow> GetGovernor w = (''unknown'', [EnumCores])"
  by (simp add: GetGovernor_def)

theorem GetGovernor_no_cores_witness:
  "get_cpu_dirs bare = [] \<and> GetGovernor bare = (''unknown'', [EnumCores])"
proof -
  have h: "get_cpu_dirs bare = []" by code_simp
  show ?thesis using h GetGovernor_no_cores [OF h] by simp
qed

subsection \<open>What a write changes\<close>

text \<open>
  A write that succeeds replaces the content of one file that exists and leaves the rest
  of the world alone; so the loop of SetGovernor keeps the enumeration of the cores, and
  when it ends without exception every core it visited holds the governor.
\<close>

lemma write_sysfs_Some:
  "write_sysfs p v w = Some w' \<Longrightarrow>
     \<exists>f. sysfs w p = Some f \<and> \<not> wr_fails f \<and> w' = w\<lparr>sysfs := (sysfs w)(p \<mapsto> f\<lparr>content := v\<rparr>)\<rparr>"
  by (auto simp: write_sysfs_def split: option.splits if_splits)

lemma write_sysfs_rest:
  "write_sysfs p v w = Some w' \<Longrightarrow>
     cpus w' = cpus w \<and> cpuinfo w' = cpuinfo w \<and> config w' = config w \<and>
     config_wr_fails w' = config_wr_fails w \<and> polkit w' = polkit w"
  by (auto dest!: write_sysfs_Some)

lemma write_sysfs_exists:
  "write_sysfs p v w = Some w' \<Longrightarrow> (sysfs w' q = None) = (sysfs w q = None)"
  by (auto dest!: write_sysfs_Some split: if_splits)

lemma write_sysfs_dirs:
  "write_sysfs p v w = Some w' \<Longrightarrow> get_cpu_dirs w' = get_cpu_dirs w"
  by (simp add: get_cpu_dirs_def write_sysfs_exists write_sysfs_rest)

lemma write_sysfs_keeps:
  "write_sysfs p v w = Some w' \<Longrightarrow> sysfs w q = Some f \<Longrightarrow> content f = v \<Longrightarrow>
     \<exists>f'. sysfs w' q = Some f' \<and> content f' = v"
  by (auto dest!: write_sysfs_Some)

lemma write_sysfs_sets:
  "write_sysfs p v w = Some w' \<Longrightarrow> \<exists>f'. sysfs w' p = Some f' \<and> content f' = v"
  by (auto dest!: write_sysfs_Some)

lemma apply_writes_rest:
  "apply_writes ds g w = (r, w', tr) \<Longrightarrow>
     cpus w' = cpus w \<and> cpuinfo w' = cpuinfo w \<and> config w' = config w \<and>
     config_wr_fails w' = config_wr_fails w \<and> polkit w' = polkit w \<and>
     get_cpu_dirs w' = get_cpu_dirs w"
proof (induction ds arbitrary: w r w' tr)
  case Nil
  then show ?case by simp
next
  case (Cons d ds)
  show ?case
  proof (cases "write_sysfs (CpuFile d GOVERNOR_PATH) g w")
    case None
    with Cons.prems show ?thesis by (simp add: Let_def)
  next
    case (Some w1)
    obtain r2 w2 tr2 where rec: "apply_writes ds g w1 = (r2, w2, tr2)"
      by (cases "apply_writes ds g w1") auto
    with Some Cons.prems have "w' = w2" by (simp add: Let_def)
    with Cons.IH [OF rec] write_sysfs_rest [OF Some] write_sysfs_dirs [OF Some]
    show ?thesis by simp
  qed
qed

lemma apply_writes_keeps:
  "apply_writes ds g w = (r, w', tr) \<Longrightarrow> sysfs w q = Some f \<Longrightarrow> content f = g \<Longrightarrow>
     \<exists>f'. sysfs w' q = Some f' \<and> content f' = g"
proof (induction ds arbitrary: w r w' tr f)
  case Nil
  then show ?case by simp
next
  case (Cons d ds)
  show ?case
  proof (cases "write_sysfs (CpuFile d GOVERNOR_PATH) g w")
    case None
    with Cons.prems show ?thesis by (simp add: Let_def)
  next
    case (Some w1)
    obtain r2 w2 tr2 where rec: "apply_writes ds g w1 = (r2, w2, tr2)"
      by (cases "apply_writes ds g w1") auto
    with Some Cons.prems have w': "w' = w2" by (simp add: Let_def)
    from write_sysfs_keeps [OF Some Cons.prems(2,3)]
    obtain f1 where "sysfs w1 q = Some f1" "content f1 = g" by blast
    with Cons.IH [OF rec] w' show ?thesis by blast
  qed
qed

lemma apply_writes_done:
  "apply_writes ds g w = (Inr u, w', tr) \<Longrightarrow>
     tr = map (\<lambda>d. SysWrite (CpuFile d GOVERNOR_PATH) g) ds \<and>
     (\<forall>d \<in> set ds. \<exists>f. sysfs w' (CpuFile d GOVERNOR_PATH) = Some f \<and> content f = g)"
proof (induction ds arbitrary: w w' tr)
  case Nil
  then show ?case by simp
next
  case (Cons d ds)
  show ?case
  proof (cases "write_sysfs (CpuFile d GOVERNOR_PATH) g w")
    case None
    with Cons.prems show ?thesis by (simp add: Let_def)
  next
    case (Some w1)
    obtain r2 w2 tr2 where rec: "apply_writes ds g w1 = (r2, w2, tr2)"
      by (cases "apply_writes ds g w1") auto
    with Some Cons.prems have eqs: "r2 = Inr u" "w' = w2" "tr = SysWrite (CpuFile d GOVERNOR_PATH) g # tr2"
      by (simp_all add: Let_def)
    from write_sysfs_sets [OF Some]
    obtain f1 where "sysfs w1 (CpuFile d GOVERNOR_PATH) = Some f1" "content f1 = g" by blast
    with apply_writes_keeps [OF rec]
    have here: "\<exists>f. sysfs w2 (CpuFile d GOVERNOR_PATH) = Some f \<and> content f = g" by blast
    from Cons.IH [of w1 w2 tr2] rec eqs
    have "tr2 = map (\<lambda>d. SysWrite (CpuFile d GOVERNOR_PATH) g) ds"
      and "\<forall>d \<in> set ds. \<exists>f. sysfs w2 (CpuFile d GOVERNOR_PATH) = Some f \<and> content f = g"
      by simp_all
    with here eqs show ?thesis by simp
  qed
qed

lemma apply_writes_events:
  "apply_writes ds g w = (r, w', tr) \<Longrightarrow> e \<in> set tr \<Longrightarrow> is_write e"
proof (induction ds arbitrary: w r w' tr)
  case Nil
  then show ?case by simp
next
  case (Cons d ds)
  show ?case
  proof (cases "write_sysfs (CpuFile d GOVERNOR_PATH) g w")
    case None
    with Cons.prems show ?thesis by (auto simp: Let_def)
  next
    case (Some w1)
    obtain r2 w2 tr2 where rec: "apply_writes ds g w1 = (r2, w2, tr2)"
      by (cases "apply_writes ds g w1") auto
    with Some Cons.prems have "tr = SysWrite (CpuFile d GOVERNOR_PATH) g # tr2"
      by (simp add: Let_def)
    with Cons.prems(2) Cons.IH [OF rec] show ?thesis by auto
  qed
qed

lemma apply_writes_stops:
  "write_sysfs (CpuFile d GOVERNOR_PATH) g w = None \<Longrightarrow>
     apply_writes (d # ds) g w = (Inl OSError, w, [SysWrite (CpuFile d GOVERNOR_PATH) g])"
  by (simp add: Let_def)

subsection \<open>The three ways through SetGovernor\<close>

lemma SetGovernor_rejects:
  "governor \<notin> set (fst (GetAvailableGovernors w)) \<Longrightarrow>
     SetGovernor governor sender w =
       (Inl (DBusException INVALID_GOVERNOR
               (''Invalid governor: '' @ governor @ ''. Available: ''
                  @ py_join '', '' (fst (GetAvailableGovernors w)))),
        w, snd (GetAvailableGovernors w))"
  by (simp add: SetGovernor_def split_beta)

lemma SetGovernor_blocked:
  "governor \<in> set (fst (GetAvailableGovernors w)) \<Longrightarrow>
   check_polkit_auth w sender POLKIT_ACTION_SET = Inl e \<Longrightarrow>
     SetGovernor governor sender w =
       (Inl e, w, snd (GetAvailableGovernors w) @ [CheckAuthorization sender POLKIT_ACTION_SET])"
  by (simp add: SetGovernor_def split_beta)

lemma SetGovernor_applies:
  "governor \<in> set (fst (GetAvailableGovernors w)) \<Longrightarrow>
   check_polkit_auth w sender POLKIT_ACTION_SET = Inr u \<Longrightarrow>
   apply_writes (get_cpu_dirs w) governor w = (r, w1, tr2) \<Longrightarrow>
     SetGovernor governor sender w =
       (case r of
          Inl e \<Rightarrow>
            (Inl e, w1,
             snd (GetAvailableGovernors w)
               @ [CheckAuthorization sender POLKIT_ACTION_SET, EnumCores] @ tr2)
        | Inr _ \<Rightarrow>
            (Inr True, save_governor governor w1,
             snd (GetAvailableGovernors w)
               @ [CheckAuthorization sender POLKIT_ACTION_SET, EnumCores] @ tr2
               @ [GovernorChanged governor, SaveConfig governor]))"
  by (simp add: SetGovernor_def split_beta split: sum.splits)

lemma SetGovernor_trace:
  "SetGovernor governor sender w = (r, w', tr) \<Longrightarrow>
     (\<forall>e \<in> set tr. \<not> is_write e) \<and> w' = w \<or>
     polkit w sender POLKIT_ACTION_SET = Inr True \<and>
     (\<exists>rest. tr = snd (GetAvailableGovernors w)
                     @ CheckAuthorization sender POLKIT_ACTION_SET # rest)"
proof (cases "governor \<in> set (fst (GetAvailableGovernors w))")
  case False
  assume "SetGovernor governor sender w = (r, w', tr)"
  with SetGovernor_rejects [OF False, of sender] available_events [of _ w]
  show ?thesis by auto
next
  case True
  assume run: "SetGovernor governor sender w = (r, w', tr)"
  show ?thesis
  proof (cases "check_polkit_auth w sender POLKIT_ACTION_SET")
    case (Inl e)
    with SetGovernor_blocked [OF True Inl] run available_events [of _ w]
    show ?thesis by auto
  next
    case (Inr u)
    then have ok: "polkit w sender POLKIT_ACTION_SET = Inr True"
      by (auto simp: check_polkit_auth_def split: sum.splits if_splits)
    obtain r2 w2 tr2 where "apply_writes (get_cpu_dirs w) governor w = (r2, w2, tr2)"
      by (cases "apply_writes (get_cpu_dirs w) governor w") auto
    from SetGovernor_applies [OF True Inr this] run ok
    show ?thesis by (auto split: sum.splits)
  qed
qed

lemma SetGovernor_returns:
  assumes "SetGovernor governor sender w = (Inr b, w', tr)"
  shows "\<exists>u w1 tr2.
           governor \<in> set (fst (GetAvailableGovernors w)) \<and>
           apply_writes (get_cpu_dirs w) governor w = (Inr u, w1, tr2) \<and>
           b \<and> w' = save_governor governor w1 \<and> GovernorChanged governor \<in> set tr"
proof (cases "governor \<in> set (fst (GetAvailableGovernors w))")
  case False
  from SetGovernor_rejects [OF False, of sender] assms show ?thesis by simp
next
  case True
  show ?thesis
  proof (cases "check_polkit_auth w sender POLKIT_ACTION_SET")
    case (Inl e)
    from SetGovernor_blocked [OF True Inl] assms show ?thesis by simp
  next
    case (Inr u)
    obtain r2 w2 tr2 where ap: "apply_writes (get_cpu_dirs w) governor w = (r2, w2, tr2)"
      by (cases "apply_writes (get_cpu_dirs w) governor w") auto
    from SetGovernor_applies [OF True Inr ap] assms True ap
    show ?thesis by (cases r2) auto
  qed
qed

lemma write_after_check:
  assumes "\<forall>e \<in> set tr1. \<not> is_write e"
    and "tr1 @ c # rest = pre @ SysWrite p v # post"
    and "\<not> is_write c"
  shows "c \<in> set pre"
proof -
  from assms(2) obtain us where
    "tr1 = pre @ us \<and> us @ c # rest = SysWrite p v # post \<or>
     tr1 @ us = pre \<and> c # rest = us @ SysWrite p v # post"
    by (auto simp: append_eq_append_conv2)
  then show ?thesis
  proof
    assume a: "tr1 = pre @ us \<and> us @ c # rest = SysWrite p v # post"
    show ?thesis
    proof (cases us)
      case Nil
      with a assms(3) show ?thesis by auto
    next
      case (Cons u us')
      with a have "SysWrite p v \<in> set tr1" by auto
      with assms(1) show ?thesis by auto
    qed
  next
    assume a: "tr1 @ us = pre \<and> c # rest = us @ SysWrite p v # post"
    show ?thesis
    proof (cases us)
      case Nil
      with a assms(3) show ?thesis by auto
    next
      case (Cons u us')
      with a show ?thesis by auto
    qed
  qed
qed

lemma save_governor_rest:
  "sysfs (save_governor g w) = sysfs w \<and> cpus (save_governor g w) = cpus w \<and>
   get_cpu_dirs (save_governor g w) = get_cpu_dirs w"
  by (simp add: save_governor_def get_cpu_dirs_def)

lemma save_governor_saved:
  "\<not> config_wr_fails w \<Longrightarrow>
     config (save_governor g w) = Parsed (JObj [(''governor'', JStr g)]) \<and>
     load_saved_governor (save_governor g w) = Inr (JStr g)"
  by (simp add: save_governor_def load_saved_governor_def)

lemma save_governor_failed:
  "config_wr_fails w \<Longrightarrow> save_governor g w = w"
  by (simp add: save_governor_def)

subsection \<open>SetGovernor: a governor that is not accepted\<close>

text \<open>
  C3: when the requested governor is not in the accepted set that the call has just read,
  SetGovernor raises the invalid-governor exception; its message holds the rejected name
  and every accepted name; the world is as before, no sysfs write was made and the
  authority was not asked.
\<close>

theorem SetGovernor_invalid:
  assumes "governor \<notin> set (fst (GetAvailableGovernors w))"
  shows "\<exists>msg tr.
           SetGovernor governor sender w = (Inl (DBusException INVALID_GOVERNOR msg), w, tr) \<and>
           msg = ''Invalid governor: '' @ governor @ ''. Available: ''
                   @ py_join '', '' (fst (GetAvailableGovernors w)) \<and>
           (\<forall>x \<in> set (fst (GetAvailableGovernors w)). \<exists>a b. msg = a @ x @ b) \<and>
           (\<forall>e \<in> set tr. \<not> is_write e \<and> \<not> is_auth e)"
proof -
  let ?av = "fst (GetAvailableGovernors w)"
  let ?msg = "''Invalid governor: '' @ governor @ ''. Available: '' @ py_join '', '' ?av"
  have "\<exists>a b. ?msg = a @ x @ b" if "x \<in> set ?av" for x
  proof -
    from py_join_holds [OF that, of "'', ''"]
    obtain a b where "py_join '', '' ?av = a @ x @ b" by blast
    then have "?msg = (''Invalid governor: '' @ governor @ ''. Available: '' @ a) @ x @ b"
      by simp
    then show ?thesis by blast
  qed
  with SetGovernor_rejects [OF assms, of sender] available_events [of _ w]
  show ?thesis by blast
qed

text \<open>
  On \<open>host\<close> the request \<^verbatim>\<open>turbo\<close> is answered with the three accepted names.
\<close>

theorem SetGovernor_invalid_witness:
  "\<exists>tr. SetGovernor ''turbo'' '':1.42'' host =
     (Inl (DBusException INVALID_GOVERNOR
        ''Invalid governor: turbo. Available: performance, powersave, schedutil''), host, tr)"
proof -
  have av: "fst (GetAvailableGovernors host) = [''performance'', ''powersave'', ''schedutil'']"
    by code_simp
  then have h: "''turbo'' \<notin> set (fst (GetAvailableGovernors host))" by simp
  from SetGovernor_invalid [OF h, of "'':1.42''"] av show ?thesis by auto
qed

subsection \<open>SetGovernor: no core\<close>

text \<open>
  On a machine without frequency scaling the accepted set is empty, and the fault of
  SetGovernor is the invalid-governor exception: the daemon has no fault of its own for
  this case.
\<close>

theorem SetGovernor_no_cores_invalid:
  "fst (SetGovernor ''performance'' '':1.42'' bare) =
     Inl (DBusException ''io.github.serverket.cpugov.Error.InvalidGovernor''
            ''Invalid governor: performance. Available: '')"
  by code_simp

text \<open>
  C5, as the code has it: when no core is enumerated, SetGovernor fails for every
  requested name with the invalid-governor exception, whose message lists an empty
  accepted set; the authority is not asked and nothing is written.
\<close>

theorem SetGovernor_no_cores:
  "get_cpu_dirs w = [] \<Longrightarrow>
     SetGovernor governor sender w =
       (Inl (DBusException INVALID_GOVERNOR
               (''Invalid governor: '' @ governor @ ''. Available: '')),
        w, [EnumCores])"
  by (simp add: SetGovernor_def available_no_cores)

theorem SetGovernor_no_cores_witness:
  "get_cpu_dirs bare = [] \<and>
   SetGovernor ''schedutil'' '':1.7'' bare =
     (Inl (DBusException INVALID_GOVERNOR ''Invalid governor: schedutil. Available: ''),
      bare, [EnumCores])"
proof -
  have h: "get_cpu_dirs bare = []" by code_simp
  show ?thesis using h SetGovernor_no_cores [OF h, of "''schedutil''" "'':1.7''"] by simp
qed

subsection \<open>SetGovernor: authorization\<close>

text \<open>
  When the authority cannot be reached, the exception of the bus call leaves
  \<^verbatim>\<open>_check_polkit_auth\<close> and SetGovernor as it is: the fault is not the not-authorized one.
\<close>

theorem SetGovernor_unreachable_authority:
  "fst (SetGovernor ''performance'' '':1.42''
          (host\<lparr>polkit := \<lambda>sender action_id.
                    Inl (DBusException ''org.freedesktop.DBus.Error.ServiceUnknown''
                           ''The name org.freedesktop.PolicyKit1 was not provided'')\<rparr>)) =
     Inl (DBusException ''org.freedesktop.DBus.Error.ServiceUnknown''
            ''The name org.freedesktop.PolicyKit1 was not provided'') \<and>
   ''org.freedesktop.DBus.Error.ServiceUnknown'' \<noteq> NOT_AUTHORIZED"
  by code_simp

text \<open>
  C2, as the code has it. In every call of SetGovernor a sysfs write comes after the
  authorization check, which granted. When the governor is accepted and the authority does
  not grant, the call fails, with the not-authorized exception when the authority answered
  and with the exception of the bus call when it could not be reached; in both cases the
  world is as before, no sysfs write was made and the authority was asked.
\<close>

theorem SetGovernor_not_granted:
  assumes "SetGovernor governor sender w = (r, w', tr)"
  shows "(\<forall>pre p v post. tr = pre @ SysWrite p v # post \<longrightarrow>
            CheckAuthorization sender POLKIT_ACTION_SET \<in> set pre \<and>
            polkit w sender POLKIT_ACTION_SET = Inr True) \<and>
         (governor \<in> set (fst (GetAvailableGovernors w)) \<longrightarrow>
            polkit w sender POLKIT_ACTION_SET \<noteq> Inr True \<longrightarrow>
            r = (case polkit w sender POLKIT_ACTION_SET of
                   Inl e \<Rightarrow> Inl e
                 | Inr _ \<Rightarrow> Inl (DBusException NOT_AUTHORIZED
                                   (''Not authorized for action: '' @ POLKIT_ACTION_SET))) \<and>
            w' = w \<and> (\<forall>e \<in> set tr. \<not> is_write e) \<and>
            CheckAuthorization sender POLKIT_ACTION_SET \<in> set tr)"
proof (intro conjI allI impI)
  fix pre p v post
  assume tr: "tr = pre @ SysWrite p v # post"
  then have "\<not> (\<forall>e \<in> set tr. \<not> is_write e)" by auto
  with SetGovernor_trace [OF assms] obtain rest where
    ok: "polkit w sender POLKIT_ACTION_SET = Inr True"
    and "tr = snd (GetAvailableGovernors w) @ CheckAuthorization sender POLKIT_ACTION_SET # rest"
    by blast
  with tr have "snd (GetAvailableGovernors w) @ CheckAuthorization sender POLKIT_ACTION_SET # rest
                  = pre @ SysWrite p v # post" by simp
  from write_after_check [OF _ this] available_events [of _ w]
  show "CheckAuthorization sender POLKIT_ACTION_SET \<in> set pre" by auto
  from ok show "polkit w sender POLKIT_ACTION_SET = Inr True" .
next
  assume av: "governor \<in> set (fst (GetAvailableGovernors w))"
    and no: "polkit w sender POLKIT_ACTION_SET \<noteq> Inr True"
  let ?e = "case polkit w sender POLKIT_ACTION_SET of
              Inl e \<Rightarrow> e
            | Inr _ \<Rightarrow> DBusException NOT_AUTHORIZED
                        (''Not authorized for action: '' @ POLKIT_ACTION_SET)"
  from no have chk: "check_polkit_auth w sender POLKIT_ACTION_SET = Inl ?e"
    by (auto simp: check_polkit_auth_def split: sum.splits)
  from SetGovernor_blocked [OF av chk] assms
  have r: "r = Inl ?e" and w: "w' = w"
    and t: "tr = snd (GetAvailableGovernors w) @ [CheckAuthorization sender POLKIT_ACTION_SET]"
    by simp_all
  from r show "r = (case polkit w sender POLKIT_ACTION_SET of
                   Inl e \<Rightarrow> Inl e
                 | Inr _ \<Rightarrow> Inl (DBusException NOT_AUTHORIZED
                                   (''Not authorized for action: '' @ POLKIT_ACTION_SET)))"
    by (simp split: sum.splits)
  from w show "w' = w" .
  from t available_events [of _ w] show "\<forall>e \<in> set tr. \<not> is_write e" by auto
  from t show "CheckAuthorization sender POLKIT_ACTION_SET \<in> set tr" by simp
qed

text \<open>
  On \<open>host\<close> with an authority that denies, and on \<open>host\<close> itself for the order of the
  calls.
\<close>

theorem SetGovernor_not_granted_witness:
  "fst (SetGovernor ''performance'' '':1.42'' (host\<lparr>polkit := \<lambda>sender action_id. Inr False\<rparr>)) =
     Inl (DBusException NOT_AUTHORIZED
            ''Not authorized for action: io.github.serverket.cpugov.set-governor'') \<and>
   fst (snd (SetGovernor ''performance'' '':1.42'' (host\<lparr>polkit := \<lambda>sender action_id. Inr False\<rparr>))) =
     host\<lparr>polkit := \<lambda>sender action_id. Inr False\<rparr> \<and>
   CheckAuthorization '':1.42'' POLKIT_ACTION_SET
     \<in> set [EnumCores, SysRead (CpuFile 0 AVAIL_GOVERNORS_PATH),
             CheckAuthorization '':1.42'' POLKIT_ACTION_SET, EnumCores]"
proof -
  let ?w = "host\<lparr>polkit := \<lambda>sender action_id. Inr False\<rparr>"
  let ?run = "SetGovernor ''performance'' '':1.42'' ?w"
  have run: "?run = (fst ?run, fst (snd ?run), snd (snd ?run))" by simp
  have av: "''performance'' \<in> set (fst (GetAvailableGovernors ?w))" by code_simp
  have no: "polkit ?w '':1.42'' POLKIT_ACTION_SET \<noteq> Inr True" by simp
  have pk: "polkit ?w '':1.42'' POLKIT_ACTION_SET = Inr False" by simp
  let ?ok = "SetGovernor ''performance'' '':1.42'' host"
  have ok: "?ok = (fst ?ok, fst (snd ?ok), snd (snd ?ok))" by simp
  have tr: "snd (snd ?ok) =
              [EnumCores, SysRead (CpuFile 0 AVAIL_GOVERNORS_PATH),
               CheckAuthorization '':1.42'' POLKIT_ACTION_SET, EnumCores]
              @ SysWrite (CpuFile 0 GOVERNOR_PATH) ''performance''
              # [SysWrite (CpuFile 1 GOVERNOR_PATH) ''performance'',
                 GovernorChanged ''performance'', SaveConfig ''performance'']"
    by code_simp
  from SetGovernor_not_granted [OF run] av no pk
  have "fst ?run = Inl (DBusException NOT_AUTHORIZED
            (''Not authorized for action: '' @ POLKIT_ACTION_SET))"
    and "fst (snd ?run) = ?w"
    by simp_all
  moreover from SetGovernor_not_granted [OF ok] tr
  have "CheckAuthorization '':1.42'' POLKIT_ACTION_SET
     \<in> set [EnumCores, SysRead (CpuFile 0 AVAIL_GOVERNORS_PATH),
             CheckAuthorization '':1.42'' POLKIT_ACTION_SET, EnumCores]"
    by blast
  ultimately show ?thesis by (simp add: POLKIT_ACTION_SET_def)
qed

subsection \<open>SetGovernor: success\<close>

text \<open>
  C4: when SetGovernor returns a value (the governor was accepted, the authority granted
  and no write of a governor file failed), the value is true, the same cores are
  enumerated as before, the governor file of each of them holds the governor and reads
  back as the governor whenever the read does not fail, the signal GovernorChanged was
  sent with the governor and, when the write of the configuration file did not fail
  either, the saved record is the governor.
\<close>

theorem SetGovernor_success:
  assumes "SetGovernor governor sender w = (Inr b, w', tr)"
  shows "b \<and>
         get_cpu_dirs w' = get_cpu_dirs w \<and>
         (\<forall>d \<in> set (get_cpu_dirs w').
            \<exists>f. sysfs w' (CpuFile d GOVERNOR_PATH) = Some f \<and> content f = governor \<and>
                (\<not> rd_fails f \<longrightarrow> read_sysfs w' (CpuFile d GOVERNOR_PATH) = governor)) \<and>
         GovernorChanged governor \<in> set tr \<and>
         (\<not> config_wr_fails w \<longrightarrow>
            config w' = Parsed (JObj [(''governor'', JStr governor)]) \<and>
            load_saved_governor w' = Inr (JStr governor))"
proof -
  from SetGovernor_returns [OF assms] obtain u w1 tr2 where
    av: "governor \<in> set (fst (GetAvailableGovernors w))"
    and ap: "apply_writes (get_cpu_dirs w) governor w = (Inr u, w1, tr2)"
    and b: b and w': "w' = save_governor governor w1"
    and sig: "GovernorChanged governor \<in> set tr"
    by blast
  from apply_writes_rest [OF ap]
  have dirs: "get_cpu_dirs w1 = get_cpu_dirs w" and fl: "config_wr_fails w1 = config_wr_fails w"
    by simp_all
  from w' dirs have d': "get_cpu_dirs w' = get_cpu_dirs w" by (simp add: save_governor_rest)
  have files: "\<exists>f. sysfs w' (CpuFile d GOVERNOR_PATH) = Some f \<and> content f = governor \<and>
                (\<not> rd_fails f \<longrightarrow> read_sysfs w' (CpuFile d GOVERNOR_PATH) = governor)"
    if "d \<in> set (get_cpu_dirs w')" for d
  proof -
    from that d' apply_writes_done [OF ap] obtain f where
      f: "sysfs w1 (CpuFile d GOVERNOR_PATH) = Some f" "content f = governor" by auto
    with w' have f': "sysfs w' (CpuFile d GOVERNOR_PATH) = Some f" by (simp add: save_governor_rest)
    from available_fixed [OF av] have "py_strip governor = governor" .
    with f f' have "\<not> rd_fails f \<longrightarrow> read_sysfs w' (CpuFile d GOVERNOR_PATH) = governor"
      by (simp add: read_sysfs_def open_read_def)
    with f f' show ?thesis by blast
  qed
  have "config w' = Parsed (JObj [(''governor'', JStr governor)]) \<and>
        load_saved_governor w' = Inr (JStr governor)" if "\<not> config_wr_fails w"
    using that fl w' save_governor_saved [of w1 governor] by simp
  with b d' files sig show ?thesis by blast
qed

theorem SetGovernor_success_witness:
  "fst (SetGovernor ''performance'' '':1.42'' host) = Inr True \<and>
   read_sysfs (fst (snd (SetGovernor ''performance'' '':1.42'' host))) (CpuFile 0 GOVERNOR_PATH)
     = ''performance'' \<and>
   read_sysfs (fst (snd (SetGovernor ''performance'' '':1.42'' host))) (CpuFile 1 GOVERNOR_PATH)
     = ''performance'' \<and>
   GovernorChanged ''performance'' \<in> set (snd (snd (SetGovernor ''performance'' '':1.42'' host))) \<and>
   load_saved_governor (fst (snd (SetGovernor ''performance'' '':1.42'' host)))
     = Inr (JStr ''performance'')"
proof -
  let ?run = "SetGovernor ''performance'' '':1.42'' host"
  have r: "fst ?run = Inr True" by code_simp
  then have run: "?run = (Inr True, fst (snd ?run), snd (snd ?run))"
    by (metis prod.collapse)
  have dirs: "get_cpu_dirs host = [0, 1]" by code_simp
  have ok: "\<not> config_wr_fails host" by (simp add: host_def)
  have f0: "sysfs (fst (snd ?run)) (CpuFile 0 GOVERNOR_PATH) =
              Some \<lparr>content = ''performance'', rd_fails = False, wr_fails = False\<rparr>"
    by code_simp
  have f1: "sysfs (fst (snd ?run)) (CpuFile 1 GOVERNOR_PATH) =
              Some \<lparr>content = ''performance'', rd_fails = False, wr_fails = False\<rparr>"
    by code_simp
  from SetGovernor_success [OF run] dirs ok f0 f1 r show ?thesis
    by auto
qed

text \<open>
  A write of the configuration file that fails is caught in \<^verbatim>\<open>_save_governor\<close>: the
  call still returns true, and the record is not the new governor.
\<close>

lemma SetGovernor_save_fails:
  "fst (SetGovernor ''performance'' '':1.42'' (host\<lparr>config_wr_fails := True\<rparr>)) = Inr True \<and>
   load_saved_governor
     (fst (snd (SetGovernor ''performance'' '':1.42'' (host\<lparr>config_wr_fails := True\<rparr>)))) =
     Inr (JStr ''powersave'')"
  by code_simp

subsection \<open>SetGovernor: a write that fails\<close>

text \<open>
  C1 at the machine \<open>stuck\<close>, where the governor file of the first core rejects the
  write: SetGovernor ends with the OSError of that write, the second core is never tried
  and keeps its governor, no signal is sent and nothing is saved.
\<close>

theorem SetGovernor_stops_at_failed_write:
  "fst (SetGovernor ''performance'' '':1.42'' stuck) = Inl OSError \<and>
   snd (snd (SetGovernor ''performance'' '':1.42'' stuck)) =
     [EnumCores, SysRead (CpuFile 0 AVAIL_GOVERNORS_PATH),
      CheckAuthorization '':1.42'' POLKIT_ACTION_SET, EnumCores,
      SysWrite (CpuFile 0 GOVERNOR_PATH) ''performance''] \<and>
   read_sysfs (fst (snd (SetGovernor ''performance'' '':1.42'' stuck))) (CpuFile 1 GOVERNOR_PATH)
     = ''powersave''"
  by code_simp

text \<open>
  The loop of \<^verbatim>\<open>_restore_governor\<close> on the same machine catches the error and goes on
  to the second core.
\<close>

lemma restore_governor_goes_on:
  "fst (restore_governor stuck) = Inr () \<and>
   snd (snd (restore_governor stuck)) =
     [LoadConfig, EnumCores, SysRead (CpuFile 0 AVAIL_GOVERNORS_PATH),
      SysWrite (CpuFile 0 GOVERNOR_PATH) ''performance'',
      SysWrite (CpuFile 1 GOVERNOR_PATH) ''performance''] \<and>
   read_sysfs (fst (snd (restore_governor stuck))) (CpuFile 0 GOVERNOR_PATH) = ''powersave'' \<and>
   read_sysfs (fst (snd (restore_governor stuck))) (CpuFile 1 GOVERNOR_PATH) = ''performance''"
  by code_simp

subsection \<open>Loading the saved governor\<close>

text \<open>
  C7 at a configuration file that holds the JSON text \<^verbatim>\<open>[]\<close>: \<^verbatim>\<open>json.load\<close> returns a
  list, \<^verbatim>\<open>config.get\<close> raises AttributeError, and the exception leaves
  \<^verbatim>\<open>_load_saved_governor\<close> and \<^verbatim>\<open>_restore_governor\<close>.
\<close>

theorem load_saved_governor_raises:
  "load_saved_governor (host\<lparr>config := Parsed (JArr [])\<rparr>) = Inl AttributeError \<and>
   fst (restore_governor (host\<lparr>config := Parsed (JArr [])\<rparr>)) = Inl AttributeError"
  by code_simp

text \<open>
  On a file that is missing, unreadable or not JSON the load returns \<^verbatim>\<open>None\<close>; on a
  JSON object it returns the value under \<^verbatim>\<open>governor\<close>; on any other JSON value it raises.
\<close>

lemma load_saved_governor_soft:
  "config w = Missing \<or> config w = Unreadable \<or> config w = Malformed \<Longrightarrow>
     load_saved_governor w = Inr JNull"
  by (auto simp: load_saved_governor_def)

lemma load_saved_governor_dict:
  "config w = Parsed (JObj items) \<Longrightarrow>
     load_saved_governor w =
       Inr (case map_of items ''governor'' of None \<Rightarrow> JNull | Some v \<Rightarrow> v)"
  by (simp add: load_saved_governor_def)

lemma load_saved_governor_other:
  "config w = Parsed v \<Longrightarrow> \<forall>items. v \<noteq> JObj items \<Longrightarrow>
     load_saved_governor w = Inl AttributeError"
  by (cases v) (simp_all add: load_saved_governor_def)

subsection \<open>Restoration\<close>

text \<open>
  C10: when the loaded value is \<^verbatim>\<open>None\<close> (no file, no key, or the JSON null) or the
  empty string, \<^verbatim>\<open>_restore_governor\<close> returns at once: the only outside call is the load
  of the configuration file, no sysfs file is enumerated, read or written, and the world
  is as before.
\<close>

theorem restore_governor_nothing_saved:
  assumes "load_saved_governor w = Inr saved"
    and "saved = JNull \<or> saved = JStr []"
  shows "restore_governor w = (Inr (), w, [LoadConfig])"
  using assms by (auto simp: restore_governor_def)

theorem restore_governor_nothing_saved_witness:
  "restore_governor (host\<lparr>config := Parsed (JObj [(''governor'', JStr [])])\<rparr>) =
     (Inr (), host\<lparr>config := Parsed (JObj [(''governor'', JStr [])])\<rparr>, [LoadConfig]) \<and>
   restore_governor (host\<lparr>config := Parsed (JObj [(''governor'', JNull)])\<rparr>) =
     (Inr (), host\<lparr>config := Parsed (JObj [(''governor'', JNull)])\<rparr>, [LoadConfig]) \<and>
   restore_governor bare = (Inr (), bare, [LoadConfig])"
proof -
  have a: "load_saved_governor (host\<lparr>config := Parsed (JObj [(''governor'', JStr [])])\<rparr>)
             = Inr (JStr [])"
    by (simp add: load_saved_governor_def)
  have b: "load_saved_governor (host\<lparr>config := Parsed (JObj [(''governor'', JNull)])\<rparr>)
             = Inr JNull"
    by (simp add: load_saved_governor_def)
  have c: "load_saved_governor bare = Inr JNull"
    by (simp add: load_saved_governor_def bare_def)
  show ?thesis
    using restore_governor_nothing_saved [OF a] restore_governor_nothing_saved [OF b]
      restore_governor_nothing_saved [OF c]
    by simp
qed

text \<open>
  C6: when the loaded value is not in the accepted set read from the first enumerated
  core, \<^verbatim>\<open>_restore_governor\<close> returns without exception, the world is as before (the
  saved record included) and no sysfs write was made.
\<close>

theorem restore_governor_unavailable:
  assumes "load_saved_governor w = Inr saved"
    and "\<not> py_in saved (fst (GetAvailableGovernors w))"
  shows "\<exists>tr. restore_governor w = (Inr (), w, tr) \<and> (\<forall>e \<in> set tr. \<not> is_write e)"
  using assms
  by (auto simp: restore_governor_def GetAvailableGovernors_def Let_def split: list.splits)

theorem restore_governor_unavailable_witness:
  "\<exists>tr. restore_governor (host\<lparr>config := Parsed (JObj [(''governor'', JStr ''ondemand'')])\<rparr>) =
     (Inr (), host\<lparr>config := Parsed (JObj [(''governor'', JStr ''ondemand'')])\<rparr>, tr) \<and>
     (\<forall>e \<in> set tr. \<not> is_write e)"
proof -
  let ?w = "host\<lparr>config := Parsed (JObj [(''governor'', JStr ''ondemand'')])\<rparr>"
  have a: "load_saved_governor ?w = Inr (JStr ''ondemand'')"
    by (simp add: load_saved_governor_def)
  have b: "\<not> py_in (JStr ''ondemand'') (fst (GetAvailableGovernors ?w))"
    by code_simp
  from restore_governor_unavailable [OF a b] show ?thesis .
qed

subsection \<open>GetCpuInfo\<close>

text \<open>
  Every line the kernel writes that starts with \<^verbatim>\<open>model name\<close> holds a colon, so the
  loop of \<^verbatim>\<open>_get_cpu_model\<close> raises nothing on \<^verbatim>\<open>/proc/cpuinfo\<close>. (On a line without
  colon the index into the split would raise IndexError; no such line is written.)
\<close>

lemma after_colon_Some:
  "CHR '':'' \<in> set line \<Longrightarrow> \<exists>v. after_colon line = Some v"
proof -
  assume "CHR '':'' \<in> set line"
  then have "dropWhile (\<lambda>c. c \<noteq> CHR '':'') line \<noteq> []"
    by (simp add: dropWhile_eq_Nil_conv)
  then obtain x rest where "dropWhile (\<lambda>c. c \<noteq> CHR '':'') line = x # rest"
    by (cases "dropWhile (\<lambda>c. c \<noteq> CHR '':'') line") auto
  then show ?thesis by (simp add: after_colon_def)
qed

lemma line_of_colon:
  "startswith (line_of l) ''model name'' \<Longrightarrow> CHR '':'' \<in> set (line_of l)"
  by (cases l) (simp_all add: startswith_def)

lemma find_model_lines: "\<exists>m. find_model (map line_of ls) = Inr m"
proof (induction ls)
  case Nil
  then show ?case by simp
next
  case (Cons l ls)
  show ?case
  proof (cases "startswith (line_of l) ''model name''")
    case True
    from after_colon_Some [OF line_of_colon [OF True]]
    obtain v where "after_colon (line_of l) = Some v" by blast
    with True show ?thesis by simp
  next
    case False
    with Cons show ?thesis by simp
  qed
qed

lemma get_cpu_model_returns:
  "\<exists>m. get_cpu_model w = Inr m \<and> (cpuinfo w = None \<longrightarrow> m = ''Unknown'')"
proof (cases "cpuinfo w")
  case None
  then show ?thesis by (simp add: get_cpu_model_def)
next
  case (Some ls)
  from find_model_lines [of ls] obtain m where "find_model (map line_of ls) = Inr m" by blast
  with Some show ?thesis by (cases m) (simp_all add: get_cpu_model_def)
qed

lemma find_model_without_colon: "find_model [''model name''] = Inl IndexError"
  by (simp add: startswith_def after_colon_def)

text \<open>
  C8: when no core with a governor file is enumerated, GetCpuInfo raises nothing and
  returns a snapshot with core count 0 and an empty list of cores; its model is what
  \<^verbatim>\<open>_get_cpu_model\<close> returns, which is \<^verbatim>\<open>Unknown\<close> when \<^verbatim>\<open>/proc/cpuinfo\<close> cannot be
  opened, and its online descriptor is what \<^verbatim>\<open>_read_sysfs\<close> returns, which is empty when
  the file cannot be read.
\<close>

theorem GetCpuInfo_no_cores:
  assumes "get_cpu_dirs w = []"
  shows "\<exists>m. get_cpu_model w = Inr m \<and> (cpuinfo w = None \<longrightarrow> m = ''Unknown'') \<and>
             GetCpuInfo w =
               (Inr \<lparr>model = m, core_count = 0, online = read_sysfs w OnlineFile, per_core = []\<rparr>,
                [EnumCores, ReadCpuinfo, SysRead OnlineFile])"
proof -
  from get_cpu_model_returns [of w] obtain m where
    m: "get_cpu_model w = Inr m \<and> (cpuinfo w = None \<longrightarrow> m = ''Unknown'')" ..
  with assms have "GetCpuInfo w =
               (Inr \<lparr>model = m, core_count = 0, online = read_sysfs w OnlineFile, per_core = []\<rparr>,
                [EnumCores, ReadCpuinfo, SysRead OnlineFile])"
    by (simp add: GetCpuInfo_def)
  with m show ?thesis by (intro exI [of _ m]) simp
qed

text \<open>
  On \<open>bare\<close>, and on \<open>bare\<close> without a readable \<^verbatim>\<open>/proc/cpuinfo\<close>.
\<close>

theorem GetCpuInfo_no_cores_witness:
  "GetCpuInfo bare =
     (Inr \<lparr>model = ''Example CPU'', core_count = 0, online = ''0-1'', per_core = []\<rparr>,
      [EnumCores, ReadCpuinfo, SysRead OnlineFile]) \<and>
   GetCpuInfo (bare\<lparr>cpuinfo := None\<rparr>) =
     (Inr \<lparr>model = ''Unknown'', core_count = 0, online = ''0-1'', per_core = []\<rparr>,
      [EnumCores, ReadCpuinfo, SysRead OnlineFile])"
proof -
  have h: "get_cpu_dirs bare = []" by code_simp
  have m: "get_cpu_model bare = Inr ''Example CPU''" by code_simp
  have r: "read_sysfs bare OnlineFile = ''0-1''" by code_simp
  have h': "get_cpu_dirs (bare\<lparr>cpuinfo := None\<rparr>) = []" by code_simp
  have r': "read_sysfs (bare\<lparr>cpuinfo := None\<rparr>) OnlineFile = ''0-1''" by code_simp
  from GetCpuInfo_no_cores [OF h] m r have "GetCpuInfo bare =
     (Inr \<lparr>model = ''Example CPU'', core_count = 0, online = ''0-1'', per_core = []\<rparr>,
      [EnumCores, ReadCpuinfo, SysRead OnlineFile])" by auto
  moreover from GetCpuInfo_no_cores [OF h'] r' have "GetCpuInfo (bare\<lparr>cpuinfo := None\<rparr>) =
     (Inr \<lparr>model = ''Unknown'', core_count = 0, online = ''0-1'', per_core = []\<rparr>,
      [EnumCores, ReadCpuinfo, SysRead OnlineFile])" by auto
  ultimately show ?thesis by simp
qed

end
